theory Spec2Isabelle
  imports Complex_Main "HOL-Library.Multiset"
begin

section \<open>Python values\<close>

text \<open>
  The programs compute with binary64 floating-point numbers (Python \<^verbatim>\<open>float\<close>,
  \<^verbatim>\<open>numpy.float64\<close>).  A value is modelled as a finite number, one of the two
  infinities, or NaN.  Finite arithmetic is exact real arithmetic: rounding, overflow to
  infinity and the sign of zero are not modelled, with one exception.  The queries test the
  sign of \<^verbatim>\<open>math.cos(math.radians(lat))\<close>, which exact arithmetic makes zero at
  latitude 90 and binary64 does not, so \<^verbatim>\<open>math.radians\<close> is modelled with its
  binary64 rounding.  The special values combine as IEEE 754
  prescribes, and the places where Python raises instead of returning a special value
  (division by zero, \<^verbatim>\<open>int\<close> and \<^verbatim>\<open>round\<close> of a non-finite value,
  \<^verbatim>\<open>math.cos\<close> of an infinity) are results \<open>Inl error\<close>.
\<close>

datatype pyfloat = Fin real | PInf | NInf | NaN

datatype py_error =
  TypeError | ValueError | ZeroDivisionError | OverflowError | IndexError
  | TransformNotInvertibleError

definition bind_err :: "'e + 'a \<Rightarrow> ('a \<Rightarrow> 'e + 'b) \<Rightarrow> 'e + 'b" where
  "bind_err m f = (case m of Inl e \<Rightarrow> Inl e | Inr x \<Rightarrow> f x)"

fun is_fin :: "pyfloat \<Rightarrow> bool" where
  "is_fin (Fin a) = True"
| "is_fin v = False"


fun fsgn :: "pyfloat \<Rightarrow> real" where
  "fsgn (Fin a) = sgn a"
| "fsgn PInf = 1"
| "fsgn NInf = - 1"
| "fsgn NaN = 0"

definition inf_of_sign :: "real \<Rightarrow> pyfloat" where
  "inf_of_sign s = (if 0 < s then PInf else if s < 0 then NInf else NaN)"

text \<open>Addition: \<open>inf + (-inf)\<close> is NaN, NaN is absorbing.\<close>

fun fadd :: "pyfloat \<Rightarrow> pyfloat \<Rightarrow> pyfloat" where
  "fadd (Fin a) (Fin b) = Fin (a + b)"
| "fadd NaN y = NaN"
| "fadd x NaN = NaN"
| "fadd PInf NInf = NaN"
| "fadd NInf PInf = NaN"
| "fadd PInf y = PInf"
| "fadd NInf y = NInf"
| "fadd x PInf = PInf"
| "fadd x NInf = NInf"

text \<open>Multiplication: \<open>0 * inf\<close> is NaN, otherwise an infinity of the product's sign.\<close>

fun fmul :: "pyfloat \<Rightarrow> pyfloat \<Rightarrow> pyfloat" where
  "fmul (Fin a) (Fin b) = Fin (a * b)"
| "fmul NaN y = NaN"
| "fmul x NaN = NaN"
| "fmul x y = inf_of_sign (fsgn x * fsgn y)"

text \<open>
  Python's \<^verbatim>\<open>x / y\<close> on floats: a zero divisor raises
  \<^verbatim>\<open>ZeroDivisionError\<close> whatever the dividend is.
\<close>

fun py_div :: "pyfloat \<Rightarrow> pyfloat \<Rightarrow> py_error + pyfloat" where
  "py_div x (Fin b) =
     (if b = 0 then Inl ZeroDivisionError
      else Inr (case x of Fin a \<Rightarrow> Fin (a / b) | NaN \<Rightarrow> NaN
                | PInf \<Rightarrow> inf_of_sign (sgn b) | NInf \<Rightarrow> inf_of_sign (- sgn b)))"
| "py_div x NaN = Inr NaN"
| "py_div (Fin a) y = Inr (Fin 0)"
| "py_div x y = Inr NaN"

text \<open>Comparison \<^verbatim>\<open>x < y\<close>: false whenever a NaN is involved.\<close>

fun fless :: "pyfloat \<Rightarrow> pyfloat \<Rightarrow> bool" where
  "fless (Fin a) (Fin b) = (a < b)"
| "fless NaN y = False"
| "fless x NaN = False"
| "fless PInf y = False"
| "fless x NInf = False"
| "fless x y = True"

text \<open>Equality \<^verbatim>\<open>x == y\<close>: NaN equals nothing, itself included.\<close>

definition py_eq :: "pyfloat \<Rightarrow> pyfloat \<Rightarrow> bool" where
  "py_eq x y = (if x = NaN then False else x = y)"

definition trunc_real :: "real \<Rightarrow> int" where
  "trunc_real x = (if 0 \<le> x then \<lfloor>x\<rfloor> else \<lceil>x\<rceil>)"

definition round_half_even :: "real \<Rightarrow> int" where
  "round_half_even x =
     (let f = \<lfloor>x\<rfloor>; d = x - of_int f
      in if d < 1 / 2 then f else if 1 / 2 < d then f + 1
         else if even f then f else f + 1)"

text \<open>\<^verbatim>\<open>int(x)\<close> truncates toward zero and raises on NaN and infinities.\<close>

fun py_int :: "pyfloat \<Rightarrow> py_error + int" where
  "py_int (Fin x) = Inr (trunc_real x)"
| "py_int NaN = Inl ValueError"
| "py_int v = Inl OverflowError"

text \<open>\<^verbatim>\<open>round(x)\<close> rounds half to even and raises on NaN and infinities.\<close>

fun py_round :: "pyfloat \<Rightarrow> py_error + int" where
  "py_round (Fin x) = Inr (round_half_even x)"
| "py_round NaN = Inl ValueError"
| "py_round v = Inl OverflowError"

text \<open>Degrees to radians in exact arithmetic.\<close>

definition radians :: "real \<Rightarrow> real" where
  "radians x = x * pi / 180"

text \<open>
  The binary64 number nearest to a real number, ties to the even significand: 53
  significant bits, the exponent not below -1022 (below it the numbers are subnormal).
  Overflow is not part of it; it is used where the result is smaller than the argument.
\<close>

definition b64 :: "real \<Rightarrow> real" where
  "b64 x =
     (if x = 0 then 0
      else (let e = max \<lfloor>log 2 \<bar>x\<bar>\<rfloor> (- 1022); q = 2 powr (of_int e - 52)
            in of_int (round_half_even (x / q)) * q))"

text \<open>
  \<^verbatim>\<open>math.radians(x)\<close> is the binary64 product \<^verbatim>\<open>x * degToRad\<close>, where
  \<^verbatim>\<open>degToRad\<close> is the binary64 constant \<open>pi / 180\<close>, 0.017453292519943295, that
  is \<open>5030569068109113 / 2\<^sup>5\<^sup>8\<close>.
\<close>

definition deg_to_rad :: real where
  "deg_to_rad = 5030569068109113 / 2 ^ 58"

definition radians64 :: "real \<Rightarrow> real" where
  "radians64 x = b64 (x * deg_to_rad)"

fun math_radians :: "pyfloat \<Rightarrow> pyfloat" where
  "math_radians (Fin x) = Fin (radians64 x)"
| "math_radians v = v"

fun math_cos :: "pyfloat \<Rightarrow> py_error + pyfloat" where
  "math_cos (Fin x) = Inr (Fin (cos x))"
| "math_cos NaN = Inr NaN"
| "math_cos v = Inl ValueError"

text \<open>
  Summation from a start value, left to right, as Python's \<^verbatim>\<open>sum\<close> does.  In
  this model addition is associative and commutative, so \<^verbatim>\<open>numpy.sum\<close> (which adds
  pairwise) and a sum over a set in any order are the same function.
\<close>

fun py_sum :: "pyfloat \<Rightarrow> pyfloat list \<Rightarrow> pyfloat" where
  "py_sum acc [] = acc"
| "py_sum acc (x # xs) = py_sum (fadd acc x) xs"

definition np_sum :: "pyfloat list list \<Rightarrow> pyfloat" where
  "np_sum rows = py_sum (Fin 0) (concat rows)"

definition nan_to_zero :: "pyfloat \<Rightarrow> pyfloat" where
  "nan_to_zero v = (if v = NaN then Fin 0 else v)"

text \<open>\<^verbatim>\<open>numpy.nansum\<close> replaces every NaN by zero and sums.\<close>

definition np_nansum :: "pyfloat list list \<Rightarrow> pyfloat" where
  "np_nansum rows = np_sum (map (map nan_to_zero) rows)"

text \<open>
  A slice \<^verbatim>\<open>xs[start:stop]\<close>: a negative bound counts from the end of the sequence,
  and every bound is clamped to \<open>0 .. len\<close>.
\<close>

definition slice_index :: "nat \<Rightarrow> int \<Rightarrow> nat" where
  "slice_index n i = (if i < 0 then nat (max 0 (i + int n)) else min n (nat i))"

definition py_slice :: "int \<Rightarrow> int \<Rightarrow> 'a list \<Rightarrow> 'a list" where
  "py_slice start stop xs =
     (let n = length xs; s = slice_index n start; e = slice_index n stop
      in take (e - s) (drop s xs))"

text \<open>\<^verbatim>\<open>range(start, stop)\<close>: empty when \<open>stop \<le> start\<close>, no wrap-around.\<close>

definition py_range :: "int \<Rightarrow> int \<Rightarrow> int list" where
  "py_range start stop = [start .. stop - 1]"

section \<open>Affine transforms\<close>

text \<open>
  The raster's transform is an \<^verbatim>\<open>affine.Affine\<close> \<open>(a, b, c, d, e, f)\<close>:
  \<open>T * (x, y) = (a x + b y + c, d x + e y + f)\<close>, and \<open>~T\<close> is its inverse, which
  raises when the determinant is zero.
\<close>

record affine =
  coef_a :: real
  coef_b :: real
  coef_c :: real
  coef_d :: real
  coef_e :: real
  coef_f :: real

definition affine_mul :: "affine \<Rightarrow> real \<times> real \<Rightarrow> real \<times> real" where
  "affine_mul T v =
     (case v of (vx, vy) \<Rightarrow>
        (vx * coef_a T + vy * coef_b T + coef_c T, vx * coef_d T + vy * coef_e T + coef_f T))"

definition affine_mulf :: "affine \<Rightarrow> pyfloat \<times> pyfloat \<Rightarrow> pyfloat \<times> pyfloat" where
  "affine_mulf T v =
     (case v of (vx, vy) \<Rightarrow>
        (fadd (fadd (fmul vx (Fin (coef_a T))) (fmul vy (Fin (coef_b T)))) (Fin (coef_c T)),
         fadd (fadd (fmul vx (Fin (coef_d T))) (fmul vy (Fin (coef_e T)))) (Fin (coef_f T))))"

definition affine_invert :: "affine \<Rightarrow> py_error + affine" where
  "affine_invert T =
     (let det = coef_a T * coef_e T - coef_b T * coef_d T
      in if det = 0 then Inl TransformNotInvertibleError
         else
           (let idet = 1 / det;
                ra = coef_e T * idet;
                rb = - coef_b T * idet;
                rd = - coef_d T * idet;
                re = coef_a T * idet
            in Inr \<lparr>coef_a = ra, coef_b = rb, coef_c = - coef_c T * ra - coef_f T * rb,
                    coef_d = rd, coef_e = re, coef_f = - coef_c T * rd - coef_f T * re\<rparr>))"

section \<open>Offline conversion: \<^verbatim>\<open>preprocess_population.py\<close>\<close>

text \<open>
  What \<^verbatim>\<open>convert_density_to_count\<close> reads from its files, after the land mask
  has been applied by \<^verbatim>\<open>rasterio.mask.mask\<close> (pixels off land hold the nodata
  value): the band, the nodata value, the transform, whether the coordinate system is
  geographic, and the resolution \<^verbatim>\<open>src.res\<close>.
\<close>

record raster =
  masked_data :: "pyfloat list list"
  nodata :: "pyfloat option"
  transform :: affine
  is_geographic :: bool
  res :: "real \<times> real"

record metadata =
  total_raw :: pyfloat
  total_adjusted :: pyfloat
  scale_factor :: pyfloat
  target_population :: pyfloat

text \<open>What a successful run persists: the array and the sidecar metadata.\<close>

record conversion =
  saved_array :: "pyfloat list list"
  meta :: metadata

datatype pixel_area = PerRow "real list" | Scalar real

definition is_masked :: "pyfloat option \<Rightarrow> pyfloat \<Rightarrow> bool" where
  "is_masked nd v = (case nd of None \<Rightarrow> False | Some n \<Rightarrow> py_eq v n)"

text \<open>\<^verbatim>\<open>np.ma.filled(density, 0.0)\<close>: masked cells become 0.\<close>

definition filled :: "raster \<Rightarrow> pyfloat list list" where
  "filled src =
     map (map (\<lambda>v. if is_masked (nodata src) v then Fin 0 else v)) (masked_data src)"

text \<open>
  \<^verbatim>\<open>xy(transform, rows, cols0, offset='center')\<close>: the latitude of the centre of
  the pixel in column 0 of each row.
\<close>

definition row_lat :: "affine \<Rightarrow> nat \<Rightarrow> real" where
  "row_lat T r = snd (affine_mul T (0 + 1 / 2, real r + 1 / 2))"

definition lats :: "raster \<Rightarrow> real list" where
  "lats src = map (row_lat (transform src)) [0 ..< length (masked_data src)]"

definition km_per_deg_lon :: "real \<Rightarrow> real" where
  "km_per_deg_lon lat = 111.320 * cos (radians lat)"

definition km_per_deg_lat :: "real \<Rightarrow> real" where
  "km_per_deg_lat lat =
     111.132 - 0.559 * (sin (radians lat))\<^sup>2 + 0.0012 * (sin (radians lat)) ^ 4"

text \<open>
  The polynomial of \<^const>\<open>km_per_deg_lat\<close> in \<open>s = sin\<^sup>2 lat\<close>, named for the proofs.
\<close>

definition meridian :: "real \<Rightarrow> real" where
  "meridian s = 111.132 - 0.559 * s + 0.0012 * s\<^sup>2"

definition pixel_width_km :: "raster \<Rightarrow> real \<Rightarrow> real" where
  "pixel_width_km src lat = \<bar>fst (res src)\<bar> * km_per_deg_lon lat"

definition pixel_height_km :: "raster \<Rightarrow> real \<Rightarrow> real" where
  "pixel_height_km src lat = \<bar>snd (res src)\<bar> * km_per_deg_lat lat"

definition pixel_area_km2 :: "raster \<Rightarrow> pixel_area" where
  "pixel_area_km2 src =
     (if is_geographic src
      then PerRow (map (\<lambda>lat. pixel_width_km src lat * pixel_height_km src lat) (lats src))
      else Scalar ((\<bar>fst (res src)\<bar> * \<bar>snd (res src)\<bar>) / 1000000))"

text \<open>
  \<^verbatim>\<open>filled * pixel_area_km2\<close>: a column of per-row areas is broadcast across the
  columns of its row, a scalar across the whole grid.
\<close>

definition times_area :: "pyfloat list list \<Rightarrow> pixel_area \<Rightarrow> pyfloat list list" where
  "times_area grid area =
     (case area of
        PerRow areas \<Rightarrow> map (\<lambda>(row, a). map (\<lambda>v. fmul v (Fin a)) row) (zip grid areas)
      | Scalar a \<Rightarrow> map (map (\<lambda>v. fmul v (Fin a))) grid)"

definition raw_counts :: "raster \<Rightarrow> string \<Rightarrow> py_error + pyfloat list list" where
  "raw_counts src density_units =
     (if density_units = ''per_km2'' then Inr (times_area (filled src) (pixel_area_km2 src))
      else if density_units = ''per_pixel'' then Inr (filled src)
      else Inl ValueError)"

text \<open>
  The normalisation.  \<open>Inl\<close> is an exception that leaves the function before
  \<^verbatim>\<open>np.save\<close>: nothing is persisted.
\<close>

definition convert_density_to_count :: "raster \<Rightarrow> string \<Rightarrow> pyfloat \<Rightarrow> py_error + conversion" where
  "convert_density_to_count src density_units target_pop =
     bind_err (raw_counts src density_units) (\<lambda>pop_counts.
       let total_pop_raw = np_sum pop_counts
       in bind_err (py_div target_pop total_pop_raw) (\<lambda>scale.
            let scaled = map (map (\<lambda>v. fmul v scale)) pop_counts;
                total_pop_adjusted = np_sum scaled
            in Inr \<lparr>saved_array = scaled,
                    meta = \<lparr>total_raw = total_pop_raw, total_adjusted = total_pop_adjusted,
                             scale_factor = scale, target_population = target_pop\<rparr>\<rparr>))"

section \<open>Runtime queries: \<^verbatim>\<open>app.py\<close>\<close>

text \<open>The three globals loaded when the server starts.\<close>

record service =
  POPULATION_COUNT_DATA :: "pyfloat list list"
  RASTER_TRANSFORM :: affine
  RASTER_SHAPE :: "int \<times> int"

text \<open>
  A query parameter as \<^verbatim>\<open>float(request.args.get(name))\<close> sees it: absent
  (\<^verbatim>\<open>float(None)\<close> raises \<^verbatim>\<open>TypeError\<close>), text that is no number
  (\<^verbatim>\<open>ValueError\<close>), or a float, which may be NaN or an infinity.
\<close>

datatype query_arg = Absent | Unparsable | Given pyfloat

fun py_float :: "query_arg \<Rightarrow> py_error + pyfloat" where
  "py_float Absent = Inl TypeError"
| "py_float Unparsable = Inl ValueError"
| "py_float (Given v) = Inr v"

definition arg_default :: "query_arg \<Rightarrow> pyfloat \<Rightarrow> query_arg" where
  "arg_default a d = (case a of Absent \<Rightarrow> Given d | _ \<Rightarrow> a)"

subsection \<open>Point estimate\<close>

text \<open>
  \<^verbatim>\<open>max(1, round(radius_km / (km_per_deg * pixel_deg)))\<close>, as both queries compute
  a pixel radius.
\<close>

definition pixel_radius :: "pyfloat \<Rightarrow> pyfloat \<Rightarrow> py_error + int" where
  "pixel_radius radius_km km_per_pixel =
     bind_err (py_div radius_km km_per_pixel) (\<lambda>q.
       bind_err (py_round q) (\<lambda>n. Inr (max 1 n)))"

text \<open>Lines 154 to 161: the column radius, with its guard.\<close>

definition estimate_col_radius :: "affine \<Rightarrow> pyfloat \<Rightarrow> pyfloat \<Rightarrow> py_error + int" where
  "estimate_col_radius T lat radius_km =
     bind_err (math_cos (math_radians lat)) (\<lambda>cos_lat.
       let km_lon = fmul (Fin 111.32) cos_lat;
           pixel_width_deg = Fin (coef_a T)
       in if fless (Fin 0) km_lon then pixel_radius radius_km (fmul km_lon pixel_width_deg)
          else Inr 1)"

definition estimate_row_radius :: "affine \<Rightarrow> pyfloat \<Rightarrow> py_error + int" where
  "estimate_row_radius T radius_km =
     (let km_lat = Fin 111.0;
          pixel_height_deg = Fin \<bar>coef_e T\<bar>
      in pixel_radius radius_km (fmul km_lat pixel_height_deg))"

text \<open>The body of the \<^verbatim>\<open>try\<close> block of \<^verbatim>\<open>get_population_estimate\<close>.\<close>

definition estimate_body :: "service \<Rightarrow> query_arg \<Rightarrow> query_arg \<Rightarrow> query_arg \<Rightarrow> py_error + int" where
  "estimate_body G lat_arg lon_arg radius_arg =
     bind_err (py_float lat_arg) (\<lambda>lat.
     bind_err (py_float lon_arg) (\<lambda>lon.
     bind_err (py_float (arg_default radius_arg (Fin 1))) (\<lambda>radius_km.
     bind_err (affine_invert (RASTER_TRANSFORM G)) (\<lambda>inv.
     case affine_mulf inv (lon, lat) of (fcol, frow) \<Rightarrow>
     bind_err (py_int fcol) (\<lambda>center_col.
     bind_err (py_int frow) (\<lambda>center_row.
     bind_err (estimate_col_radius (RASTER_TRANSFORM G) lat radius_km) (\<lambda>col_radius.
     bind_err (estimate_row_radius (RASTER_TRANSFORM G) radius_km) (\<lambda>row_radius.
       let row_start = max 0 (center_row - row_radius);
           row_stop = min (fst (RASTER_SHAPE G)) (center_row + row_radius + 1);
           col_start = max 0 (center_col - col_radius);
           col_stop = min (snd (RASTER_SHAPE G)) (center_col + col_radius + 1);
           area_slice = map (py_slice col_start col_stop)
                          (py_slice row_start row_stop (POPULATION_COUNT_DATA G));
           population_in_radius = np_nansum area_slice
       in py_int population_in_radius))))))))"

text \<open>The handler: any exception of the body becomes the answer 0.\<close>

definition get_population_estimate :: "service \<Rightarrow> query_arg \<Rightarrow> query_arg \<Rightarrow> query_arg \<Rightarrow> int" where
  "get_population_estimate G lat_arg lon_arg radius_arg =
     (case estimate_body G lat_arg lon_arg radius_arg of Inl e \<Rightarrow> 0 | Inr n \<Rightarrow> n)"

subsection \<open>Coverage sweep\<close>

type_synonym pixel = "int \<times> int"

text \<open>A geographic point is \<open>(lat, lon)\<close> in degrees, the order geopy takes.\<close>

type_synonym geo = "real \<times> real"

text \<open>
  \<^verbatim>\<open>great_circle(p, q).kilometers\<close> is a call into the geopy library; the sweep
  takes it as a parameter, a function that returns a distance or raises.
\<close>

type_synonym distance_fn = "geo \<Rightarrow> geo \<Rightarrow> py_error + real"


text \<open>
  Lines 202 to 214: the clamped bounding box \<open>(row_start, row_stop, col_start, col_stop)\<close>
  of one sample.  The propagator's latitude and longitude are finite numbers.  Unlike the
  point estimate, the column radius has no guard.
\<close>

definition sample_box :: "service \<Rightarrow> real \<Rightarrow> geo \<Rightarrow> py_error + (int \<times> int \<times> int \<times> int)" where
  "sample_box G radius_km p =
     (case p of (lat, lon) \<Rightarrow>
        bind_err (affine_invert (RASTER_TRANSFORM G)) (\<lambda>inv.
        case affine_mul inv (lon, lat) of (fcol, frow) \<Rightarrow>
          let center_col = trunc_real fcol;
              center_row = trunc_real frow;
              km_lat = 111.0;
              km_lon = 111.32 * cos (radians64 lat)
          in
          bind_err (pixel_radius (Fin radius_km)
                      (Fin (km_lon * coef_a (RASTER_TRANSFORM G)))) (\<lambda>col_radius.
          bind_err (pixel_radius (Fin radius_km)
                      (Fin (km_lat * \<bar>coef_e (RASTER_TRANSFORM G)\<bar>))) (\<lambda>row_radius.
            let row_start = max 0 (center_row - row_radius);
                row_stop = min (fst (RASTER_SHAPE G)) (center_row + row_radius + 1);
                col_start = max 0 (center_col - col_radius);
                col_stop = min (snd (RASTER_SHAPE G)) (center_col + col_radius + 1)
            in Inr (row_start, row_stop, col_start, col_stop)))))"

text \<open>The candidates of a box, in the order the two nested loops visit them.\<close>

definition box_pixels :: "int \<times> int \<times> int \<times> int \<Rightarrow> pixel list" where
  "box_pixels b =
     (case b of (row_start, row_stop, col_start, col_stop) \<Rightarrow>
        concat (map (\<lambda>r. map (\<lambda>c. (r, c)) (py_range col_start col_stop))
                  (py_range row_start row_stop)))"

text \<open>\<^verbatim>\<open>RASTER_TRANSFORM * (c + 0.5, r + 0.5)\<close>, returned as \<open>(lat, lon)\<close>.\<close>

definition pixel_center :: "affine \<Rightarrow> pixel \<Rightarrow> geo" where
  "pixel_center T px =
     (case px of (r, c) \<Rightarrow>
        case affine_mul T (of_int c + 1 / 2, of_int r + 1 / 2) of
          (pixel_lon, pixel_lat) \<Rightarrow> (pixel_lat, pixel_lon))"

text \<open>
  The set \<^verbatim>\<open>covered_pixels\<close> is a list without repetitions; \<^verbatim>\<open>add\<close> is
  \<^const>\<open>List.insert\<close>, which leaves the list alone when the pixel is in it.
\<close>

fun scan_box :: "distance_fn \<Rightarrow> affine \<Rightarrow> real \<Rightarrow> geo \<Rightarrow> pixel list \<Rightarrow> pixel list \<Rightarrow> py_error + pixel list" where
  "scan_box measure_km T radius_km center_point [] covered = Inr covered"
| "scan_box measure_km T radius_km center_point (px # rest) covered =
     (case measure_km center_point (pixel_center T px) of
        Inl e \<Rightarrow> Inl e
      | Inr distance \<Rightarrow>
          scan_box measure_km T radius_km center_point rest
            (if distance \<le> radius_km then List.insert px covered else covered))"

fun sweep :: "distance_fn \<Rightarrow> service \<Rightarrow> real \<Rightarrow> geo list \<Rightarrow> pixel list \<Rightarrow> py_error + pixel list" where
  "sweep measure_km G radius_km [] covered = Inr covered"
| "sweep measure_km G radius_km (p # track) covered =
     (case sample_box G radius_km p of
        Inl e \<Rightarrow> Inl e
      | Inr b \<Rightarrow>
          (case scan_box measure_km (RASTER_TRANSFORM G) radius_km p (box_pixels b) covered of
             Inl e \<Rightarrow> Inl e
           | Inr covered' \<Rightarrow> sweep measure_km G radius_km track covered'))"

text \<open>
  \<^verbatim>\<open>POPULATION_COUNT_DATA[r, c]\<close>: a negative index counts from the end, an index
  out of range raises.
\<close>

definition norm_index :: "nat \<Rightarrow> int \<Rightarrow> py_error + nat" where
  "norm_index n i =
     (let j = (if i < 0 then i + int n else i)
      in if 0 \<le> j \<and> j < int n then Inr (nat j) else Inl IndexError)"

definition count_at :: "pyfloat list list \<Rightarrow> pixel \<Rightarrow> py_error + pyfloat" where
  "count_at data px =
     (case px of (r, c) \<Rightarrow>
        bind_err (norm_index (length data) r) (\<lambda>i.
        bind_err (norm_index (length (data ! i)) c) (\<lambda>j. Inr (data ! i ! j))))"

text \<open>\<^verbatim>\<open>sum(POPULATION_COUNT_DATA[r, c] for r, c in covered_pixels)\<close>.\<close>

fun sum_counts :: "pyfloat list list \<Rightarrow> pyfloat \<Rightarrow> pixel list \<Rightarrow> py_error + pyfloat" where
  "sum_counts data acc [] = Inr acc"
| "sum_counts data acc (px # rest) =
     (case count_at data px of
        Inl e \<Rightarrow> Inl e
      | Inr v \<Rightarrow> sum_counts data (fadd acc v) rest)"

text \<open>
  The sweep for a ground track and a radius; \<open>Inl\<close> is the handler's error answer
  (status 500), \<open>Inr\<close> the coverage score.
\<close>

definition coverage_score :: "distance_fn \<Rightarrow> service \<Rightarrow> real \<Rightarrow> geo list \<Rightarrow> py_error + int" where
  "coverage_score measure_km G radius_km track =
     bind_err (sweep measure_km G radius_km track []) (\<lambda>covered_pixels.
     bind_err (sum_counts (POPULATION_COUNT_DATA G) (Fin 0) covered_pixels) (\<lambda>total_population.
       py_int total_population))"


text \<open>
  geopy's \<^verbatim>\<open>great_circle\<close>: the central angle between the two points on a sphere of
  radius 6371.009 km, here by the spherical law of cosines; a latitude outside
  \<open>[-90, 90]\<close> raises \<^verbatim>\<open>ValueError\<close>.
\<close>

definition great_circle_km :: distance_fn where
  "great_circle_km p q =
     (case p of (lat1, lon1) \<Rightarrow> case q of (lat2, lon2) \<Rightarrow>
        if \<bar>lat1\<bar> \<le> 90 \<and> \<bar>lat2\<bar> \<le> 90
        then Inr (6371.009 *
                  arccos (sin (radians lat1) * sin (radians lat2)
                          + cos (radians lat1) * cos (radians lat2)
                            * cos (radians lon2 - radians lon1)))
        else Inl ValueError)"

subsection \<open>Notions for stating the sweep's result\<close>



text \<open>The count of a pixel that can be read.\<close>

definition count_of :: "pyfloat list list \<Rightarrow> pixel \<Rightarrow> pyfloat" where
  "count_of data px = (case count_at data px of Inl e \<Rightarrow> NaN | Inr v \<Rightarrow> v)"


section \<open>Concrete inputs\<close>

text \<open>
  A north-up global grid of square pixels of \<open>deg\<close> degrees: the top left corner is at
  longitude -180, latitude 90.
\<close>

definition global_transform :: "real \<Rightarrow> affine" where
  "global_transform deg =
     \<lparr>coef_a = deg, coef_b = 0, coef_c = - 180, coef_d = 0, coef_e = - deg, coef_f = 90\<rparr>"

text \<open>
  The transform of a raster turned by a quarter: its columns run from north to south.
  It is invertible, and its \<open>a\<close>, which the point estimate takes for the pixel width,
  is 0.
\<close>

definition quarter_turn_transform :: affine where
  "quarter_turn_transform =
     \<lparr>coef_a = 0, coef_b = 10, coef_c = - 180, coef_d = - 10, coef_e = 0, coef_f = 90\<rparr>"

definition uniform_grid :: "nat \<Rightarrow> nat \<Rightarrow> pyfloat \<Rightarrow> pyfloat list list" where
  "uniform_grid h w v = replicate h (replicate w v)"

text \<open>18 by 36 pixels of 10 degrees, one person in every cell.\<close>

definition world10 :: service where
  "world10 = \<lparr>POPULATION_COUNT_DATA = uniform_grid 18 36 (Fin 1),
               RASTER_TRANSFORM = global_transform 10, RASTER_SHAPE = (18, 36)\<rparr>"

text \<open>3 by 6 pixels of 60 degrees, one person in every cell.\<close>

definition world60 :: service where
  "world60 = \<lparr>POPULATION_COUNT_DATA = uniform_grid 3 6 (Fin 1),
               RASTER_TRANSFORM = global_transform 60, RASTER_SHAPE = (3, 6)\<rparr>"

text \<open>The same grid with a NaN in the cell of row 1, column 3.\<close>

definition world60_nan :: service where
  "world60_nan = world60\<lparr>POPULATION_COUNT_DATA :=
     [replicate 6 (Fin 1), [Fin 1, Fin 1, Fin 1, NaN, Fin 1, Fin 1], replicate 6 (Fin 1)]\<rparr>"

text \<open>
  The scenario of the specification: a projected grid of 10 by 10 pixels of 2 km by 2 km,
  density 10 per square km everywhere, no nodata value.
\<close>

definition scenario_raster :: raster where
  "scenario_raster =
     \<lparr>masked_data = uniform_grid 10 10 (Fin 10), nodata = None,
      transform = \<lparr>coef_a = 2000, coef_b = 0, coef_c = 0, coef_d = 0, coef_e = - 2000, coef_f = 0\<rparr>,
      is_geographic = False, res = (2000, 2000)\<rparr>"

text \<open>A geographic grid of one column and two rows whose only unmasked cell is NaN.\<close>

definition nan_raster :: raster where
  "nan_raster =
     \<lparr>masked_data = [[NaN], [Fin 0]], nodata = Some (Fin 0),
      transform = global_transform 90, is_geographic = True, res = (90, 90)\<rparr>"

text \<open>A projected grid with no land: both cells hold the nodata value.\<close>

definition no_land_raster :: raster where
  "no_land_raster =
     \<lparr>masked_data = [[Fin (- 9999)], [Fin (- 9999)]], nodata = Some (Fin (- 9999)),
      transform = \<lparr>coef_a = 2000, coef_b = 0, coef_c = 0, coef_d = 0, coef_e = - 2000, coef_f = 0\<rparr>,
      is_geographic = False, res = (2000, 2000)\<rparr>"

text \<open>
  A geographic grid of three rows and two columns of 60 degree pixels: the row centres
  are at latitudes 60, 0 and -60.
\<close>

definition geo_raster60 :: raster where
  "geo_raster60 =
     \<lparr>masked_data = [[Fin 5, Fin 7], [Fin 11, Fin 13], [Fin 2, Fin 3]], nodata = None,
      transform = global_transform 60, is_geographic = True, res = (60, 60)\<rparr>"

section \<open>Auxiliary facts\<close>

lemma b64_zero: "b64 0 = 0"
  by (simp add: b64_def)

lemma b64_binade:
  assumes "2 powr of_int e \<le> \<bar>x\<bar>" "\<bar>x\<bar> < 2 powr (of_int e + 1)" "- 1022 \<le> e"
  shows "b64 x = of_int (round_half_even (x / 2 powr (of_int e - 52))) * 2 powr (of_int e - 52)"
proof -
  have x: "x \<noteq> 0" "0 < \<bar>x\<bar>" using assms(1) by (auto simp: powr_def) 
  have "\<lfloor>log 2 \<bar>x\<bar>\<rfloor> = e"
    using assms(1,2) x by (subst floor_log_eq_powr_iff) auto
  then show ?thesis using x assms(3) by (simp add: b64_def Let_def max_def)
qed

lemma b64_1_2:
  assumes "1 \<le> x" "x < 2"
  shows "b64 x = of_int (round_half_even (x * 2 ^ 52)) / 2 ^ 52"
proof -
  have "b64 x = of_int (round_half_even (x / 2 powr (of_int 0 - 52))) * 2 powr (of_int 0 - 52)"
    using assms by (intro b64_binade) auto
  moreover have "2 powr (of_int 0 - 52) = (1 :: real) / 2 ^ 52"
    by (simp add: powr_minus_divide)
  ultimately have "b64 x = of_int (round_half_even (x / (1 / 2 ^ 52))) * (1 / 2 ^ 52)"
    by (simp only:)
  then show ?thesis by simp
qed

lemma b64_2_4:
  assumes "2 \<le> x" "x < 4"
  shows "b64 x = of_int (round_half_even (x * 2 ^ 51)) / 2 ^ 51"
proof -
  have "b64 x = of_int (round_half_even (x / 2 powr (of_int 1 - 52))) * 2 powr (of_int 1 - 52)"
    using assms by (intro b64_binade) auto
  moreover have "2 powr (of_int 1 - 52) = (1 :: real) / 2 ^ 51"
    by (simp add: powr_minus_divide)
  ultimately have "b64 x = of_int (round_half_even (x / (1 / 2 ^ 51))) * (1 / 2 ^ 51)"
    by (simp only:)
  then show ?thesis by simp
qed

lemma radians64_90: "radians64 90 = 884279719003555 / 562949953421312"
proof -
  have "b64 (90 * deg_to_rad) = of_int (round_half_even (90 * deg_to_rad * 2 ^ 52)) / 2 ^ 52"
    by (rule b64_1_2) (simp_all add: deg_to_rad_def)
  also have "round_half_even (90 * deg_to_rad * 2 ^ 52) = 7074237752028440"
    by (simp add: deg_to_rad_def round_half_even_def)
  finally show ?thesis by (simp add: radians64_def)
qed

lemma radians64_180: "radians64 180 = 884279719003555 / 281474976710656"
proof -
  have "b64 (180 * deg_to_rad) = of_int (round_half_even (180 * deg_to_rad * 2 ^ 51)) / 2 ^ 51"
    by (rule b64_2_4) (simp_all add: deg_to_rad_def)
  also have "round_half_even (180 * deg_to_rad * 2 ^ 51) = 7074237752028440"
    by (simp add: deg_to_rad_def round_half_even_def)
  finally show ?thesis by (simp add: radians64_def)
qed

lemma radians64_200: "radians64 200 = 7860264168920489 / 2251799813685248"
proof -
  have "b64 (200 * deg_to_rad) = of_int (round_half_even (200 * deg_to_rad * 2 ^ 51)) / 2 ^ 51"
    by (rule b64_2_4) (simp_all add: deg_to_rad_def)
  also have "round_half_even (200 * deg_to_rad * 2 ^ 51) = 7860264168920489"
    by (simp add: deg_to_rad_def round_half_even_def)
  finally show ?thesis by (simp add: radians64_def)
qed


lemma arctan_partial_sums:
  fixes x :: real
  assumes "0 \<le> x" "x \<le> 1"
  shows "(\<Sum>i<2 * n. (- 1) ^ i * (1 / real (i * 2 + 1) * x ^ (i * 2 + 1))) \<le> arctan x"
    and "arctan x \<le> (\<Sum>i<2 * n + 1. (- 1) ^ i * (1 / real (i * 2 + 1) * x ^ (i * 2 + 1)))"
proof -
  let ?a = "\<lambda>i. 1 / real (i * 2 + 1) * x ^ (i * 2 + 1)"
  have z: "?a \<longlonglongrightarrow> 0" using assms by (intro zeroseq_arctan_series) auto
  have p: "0 \<le> ?a i" for i using assms by simp
  have m: "?a (Suc i) \<le> ?a i" for i
  proof -
    have "x ^ (Suc i * 2 + 1) \<le> x ^ (i * 2 + 1)"
      using assms by (intro power_decreasing) auto
    moreover have "1 / real (Suc i * 2 + 1) \<le> 1 / real (i * 2 + 1)"
      by (intro divide_left_mono) auto
    moreover have "0 \<le> x ^ (Suc i * 2 + 1)" "0 \<le> 1 / real (i * 2 + 1)"
      using assms by auto
    ultimately show ?thesis by (intro mult_mono) auto
  qed
  have s: "arctan x = (\<Sum>i. (- 1) ^ i * ?a i)"
    using assms by (intro arctan_series) auto
  show "(\<Sum>i<2 * n. (- 1) ^ i * ?a i) \<le> arctan x"
    unfolding s by (rule summable_Leibniz'(2)[OF z p m])
  show "arctan x \<le> (\<Sum>i<2 * n + 1. (- 1) ^ i * ?a i)"
    unfolding s by (rule summable_Leibniz'(4)[OF z p m])
qed

lemma pi_above_double: "884279719003555 / 281474976710656 < pi"
proof -
  let ?f = "\<lambda>(x :: real) i. (- 1) ^ i * (1 / real (i * 2 + 1) * x ^ (i * 2 + 1))"
  have a: "(\<Sum>i<2 * 6. ?f (1 / 5) i) \<le> arctan (1 / 5)"
    by (rule arctan_partial_sums(1)) auto
  have b: "arctan (1 / 239) \<le> (\<Sum>i<2 * 1 + 1. ?f (1 / 239) i)"
    by (rule arctan_partial_sums(2)) auto
  have "pi = 16 * arctan (1 / 5) - 4 * arctan (1 / 239)"
    using machin by simp
  then have "16 * (\<Sum>i<2 * 6. ?f (1 / 5) i) - 4 * (\<Sum>i<2 * 1 + 1. ?f (1 / 239) i) \<le> pi"
    using a b by linarith
  moreover have "884279719003555 / 281474976710656
        < 16 * (\<Sum>i<2 * 6. ?f (1 / 5) i) - 4 * (\<Sum>i<2 * 1 + 1. ?f (1 / 239) i)"
    by (simp add: eval_nat_numeral)
  ultimately show ?thesis by linarith
qed

lemma pi_below_double: "pi < 884279719003555 / 281474976710656 + 13 / 10 ^ 17"
proof -
  let ?f = "\<lambda>(x :: real) i. (- 1) ^ i * (1 / real (i * 2 + 1) * x ^ (i * 2 + 1))"
  have a: "arctan (1 / 5) \<le> (\<Sum>i<2 * 6 + 1. ?f (1 / 5) i)"
    by (rule arctan_partial_sums(2)) auto
  have b: "(\<Sum>i<2 * 2. ?f (1 / 239) i) \<le> arctan (1 / 239)"
    by (rule arctan_partial_sums(1)) auto
  have "pi = 16 * arctan (1 / 5) - 4 * arctan (1 / 239)"
    using machin by simp
  then have "pi \<le> 16 * (\<Sum>i<2 * 6 + 1. ?f (1 / 5) i) - 4 * (\<Sum>i<2 * 2. ?f (1 / 239) i)"
    using a b by linarith
  moreover have "16 * (\<Sum>i<2 * 6 + 1. ?f (1 / 5) i) - 4 * (\<Sum>i<2 * 2. ?f (1 / 239) i)
        < 884279719003555 / 281474976710656 + 13 / 10 ^ 17"
    by (simp add: eval_nat_numeral)
  ultimately show ?thesis by linarith
qed

lemma radians64_0: "radians64 0 = 0"
  by (simp add: radians64_def b64_zero)

lemma cos_radians64_0: "cos (radians64 0) = 1"
  by (simp add: radians64_0)

text \<open>
  \<^verbatim>\<open>math.radians(90)\<close> is the binary64 number nearest to \<open>pi / 2\<close>; it lies below
  \<open>pi / 2\<close> by less than \<open>10\<^sup>-\<^sup>1\<^sup>6\<close>, so its cosine is positive and tiny.
\<close>

lemma cos_radians64_90:
  "0 < cos (radians64 90)" "cos (radians64 90) < 65 / 10 ^ 18"
proof -
  let ?r = "884279719003555 / 562949953421312 :: real"
  have lo: "?r < pi / 2" using pi_above_double by simp
  have hi: "pi / 2 - ?r < 65 / 10 ^ 18" using pi_below_double by simp
  show "0 < cos (radians64 90)"
    unfolding radians64_90 using lo by (intro cos_gt_zero) auto
  have "cos ?r = sin (pi / 2 - ?r)" by (simp add: sin_cos_eq)
  also have "\<dots> \<le> pi / 2 - ?r" using lo by (intro sin_x_le_x) auto
  finally show "cos (radians64 90) < 65 / 10 ^ 18"
    unfolding radians64_90 using hi by linarith
qed

lemma cos_negative_between:
  assumes "pi / 2 < x" "x < 3 * pi / 2"
  shows "cos x < 0"
proof -
  have "0 < cos (x - pi)" using assms by (intro cos_gt_zero_pi) auto
  moreover have "cos (x - pi + pi) = - cos (x - pi)" by (rule cos_periodic_pi)
  ultimately show ?thesis by simp
qed

lemma cos_radians64_180_neg: "cos (radians64 180) < 0"
  unfolding radians64_180
  using pi_above_double pi_less_4 by (intro cos_negative_between) auto

lemma cos_radians64_200_neg: "cos (radians64 200) < 0"
  unfolding radians64_200
  using pi_above_double pi_less_4 by (intro cos_negative_between) auto

lemma round_half_even_lower: "x - 1 / 2 \<le> of_int (round_half_even x)"
proof -
  have "x < of_int \<lfloor>x\<rfloor> + 1" by linarith
  then show ?thesis by (simp add: round_half_even_def Let_def) linarith
qed

lemma py_sum_replicate: "py_sum (Fin a) (replicate n (Fin b)) = Fin (a + real n * b)"
  by (induction n arbitrary: a) (simp_all add: algebra_simps)

lemma concat_replicate_replicate: "concat (replicate m (replicate n x)) = replicate (m * n) x"
  by (induction m) (simp_all add: replicate_add)

lemma slice_index_le: "slice_index n i \<le> n"
  by (auto simp: slice_index_def)

lemma py_slice_replicate:
  "py_slice s e (replicate n x) = replicate (slice_index n e - slice_index n s) x"
  using slice_index_le[of n e] by (simp add: py_slice_def Let_def min_def)

lemma np_sum_uniform: "np_sum (replicate m (replicate n (Fin b))) = Fin (real (m * n) * b)"
  by (simp add: np_sum_def concat_replicate_replicate py_sum_replicate)

lemma np_nansum_uniform:
  "np_nansum (replicate m (replicate n (Fin b))) = Fin (real (m * n) * b)"
  by (simp add: np_nansum_def nan_to_zero_def np_sum_uniform)

section \<open>The point estimate\<close>

lemma world10_col_radius:
  "estimate_col_radius (global_transform 10) (Fin 200) (Fin 1) = Inr 1"
  using cos_radians64_200_neg
  by (simp add: estimate_col_radius_def bind_err_def Let_def mult_less_0_iff
      zero_less_mult_iff not_less)

lemma world10_row_radius: "estimate_row_radius (global_transform 10) (Fin 1) = Inr 1"
  by (simp add: estimate_row_radius_def pixel_radius_def bind_err_def Let_def
      global_transform_def round_half_even_def)

text \<open>
  Claim C2.  A query far outside the grid should answer 0.  On the grid \<open>world10\<close> the
  query \<open>lat = 200, lon = 0, radius_km = 1\<close> has centre row -11 and
  \<open>row_stop = min 18 (-11 + 1 + 1) = -9\<close>; the slice \<open>[0:-9, 17:20]\<close> counts its stop
  from the end of the array, holds 9 rows of 3 cells, and the answer is 27.
\<close>

theorem estimate_lat_200_is_27:
  "get_population_estimate world10 (Given (Fin 200)) (Given (Fin 0)) (Given (Fin 1)) = 27"
proof -
  define inv where
    "inv = \<lparr>coef_a = 1 / 10, coef_b = 0, coef_c = 18, coef_d = 0, coef_e = - 1 / 10, coef_f = 9\<rparr>"
  have i: "affine_invert (global_transform 10) = Inr inv"
    by (simp add: inv_def affine_invert_def global_transform_def Let_def)
  have c: "affine_mulf inv (Fin 0, Fin 200) = (Fin 18, Fin (- 11))"
    by (simp add: inv_def affine_mulf_def)
  have s: "map (py_slice 17 20) (py_slice 0 (- 9) (uniform_grid 18 36 (Fin 1)))
           = replicate 9 (replicate 3 (Fin 1))"
    by (simp add: uniform_grid_def py_slice_replicate slice_index_def)
  show ?thesis
    by (simp add: get_population_estimate_def estimate_body_def world10_def i
        world10_col_radius world10_row_radius bind_err_def arg_default_def c trunc_real_def
        Let_def s np_nansum_uniform)
qed

lemma col_radius_divides:
  assumes "0 < c" and "math_cos (math_radians lat) = Inr (Fin c)"
  shows "coef_a T \<noteq> 0 \<Longrightarrow>
           estimate_col_radius T lat (Fin r)
           = Inr (max 1 (round_half_even (r / (111.32 * c * coef_a T))))"
    and "coef_a T = 0 \<Longrightarrow> estimate_col_radius T lat (Fin r) = Inl ZeroDivisionError"
  using assms
  by (simp_all add: estimate_col_radius_def pixel_radius_def bind_err_def Let_def)

text \<open>
  Claim C9, as stated, fails at its own example.  At latitude 90 the computed factor
  \<open>111.32 * cos (radians 90)\<close> is positive (about \<open>6.8 * 10\<^sup>-\<^sup>1\<^sup>5\<close>), the guard lets the
  division run, and the column radius for a radius of 1 km on pixels of 10 degrees is
  at least \<open>10\<^sup>1\<^sup>3\<close>; where the transform's \<open>a\<close> is 0 the division raises
  \<^verbatim>\<open>ZeroDivisionError\<close>.
\<close>

theorem col_radius_at_latitude_90:
  "0 < 111.32 * cos (radians64 90)
   \<and> (\<exists>n. estimate_col_radius (global_transform 10) (Fin 90) (Fin 1) = Inr n \<and> 10 ^ 13 \<le> n)
   \<and> estimate_col_radius quarter_turn_transform (Fin 90) (Fin 1) = Inl ZeroDivisionError"
proof -
  define c where "c = cos (radians64 90)"
  have c: "0 < c" "c < 65 / 10 ^ 18"
    using cos_radians64_90 by (simp_all add: c_def)
  have m: "math_cos (math_radians (Fin 90)) = Inr (Fin c)"
    by (simp add: c_def)
  define x where "x = 1 / (111.32 * c * coef_a (global_transform 10))"
  have d: "0 < 111.32 * c * coef_a (global_transform 10)"
    "111.32 * c * coef_a (global_transform 10) < 1 / (10 ^ 13 + 1)"
    using c by (simp_all add: global_transform_def)
  then have "10 ^ 13 + 1 < x"
    unfolding x_def by (simp add: field_simps)
  then have "of_int (10 ^ 13) \<le> (of_int (round_half_even x) :: real)"
    using round_half_even_lower[of x] by simp
  then have n: "10 ^ 13 \<le> round_half_even x"
    by (simp only: of_int_le_iff)
  have "estimate_col_radius (global_transform 10) (Fin 90) (Fin 1)
        = Inr (max 1 (round_half_even x))"
    unfolding x_def by (rule col_radius_divides(1)[OF c(1) m]) (simp add: global_transform_def)
  moreover have "10 ^ 13 \<le> max 1 (round_half_even x)" using n by simp
  moreover have "estimate_col_radius quarter_turn_transform (Fin 90) (Fin 1)
        = Inl ZeroDivisionError"
    by (rule col_radius_divides(2)[OF c(1) m]) (simp add: quarter_turn_transform_def)
  ultimately show ?thesis using c(1) by (auto simp: c_def)
qed

text \<open>
  Claim C9, amended.  The division is guarded by the sign of the computed factor: for
  every latitude at which \<open>111.32 * cos (radians lat)\<close>, as binary64 computes it, is not
  positive, the point estimate takes the column radius 1 without dividing: the result is
  \<open>Inr 1\<close> for every transform (an \<open>a\<close> of zero included) and every radius, never a
  \<^verbatim>\<open>ZeroDivisionError\<close>.  Latitude 180 is such a latitude.
\<close>

theorem col_radius_guard_on_computed_factor:
  "111.32 * cos (radians64 lat) \<le> 0 \<Longrightarrow> estimate_col_radius T (Fin lat) radius_km = Inr 1"
  by (simp add: estimate_col_radius_def bind_err_def Let_def not_less)

theorem col_radius_guard_on_computed_factor_witness:
  "111.32 * cos (radians64 180) \<le> 0
   \<and> estimate_col_radius quarter_turn_transform (Fin 180) (Fin 1300) = Inr 1"
proof -
  have h: "111.32 * cos (radians64 180) \<le> 0"
    using cos_radians64_180_neg by (simp add: mult_le_0_iff)
  show ?thesis
    using col_radius_guard_on_computed_factor [OF h, of quarter_turn_transform "Fin 1300"] h
    by simp
qed

section \<open>The normaliser\<close>

lemma fadd_fin_iff: "is_fin (fadd x y) \<longleftrightarrow> is_fin x \<and> is_fin y"
  by (cases x; cases y) simp_all

lemma fadd_NaN_right: "fadd x NaN = NaN"
  by (cases x) simp_all

lemma fmul_NaN_right: "fmul v NaN = NaN"
  by (cases v) simp_all

lemma py_sum_NaN: "py_sum NaN xs = NaN"
  by (induction xs) simp_all

lemma py_sum_has_NaN: "NaN \<in> set xs \<Longrightarrow> py_sum acc xs = NaN"
  by (induction xs arbitrary: acc) (auto simp: py_sum_NaN fadd_NaN_right)

lemma py_sum_fin_iff: "is_fin (py_sum acc xs) \<longleftrightarrow> is_fin acc \<and> list_all is_fin xs"
  by (induction xs arbitrary: acc) (auto simp: fadd_fin_iff)


lemma py_div_nonfinite: "\<not> is_fin y \<Longrightarrow> \<exists>s. py_div x y = Inr s"
  by (cases y; cases x) simp_all

lemma scenario_raw_counts:
  "raw_counts scenario_raster ''per_km2'' = Inr (uniform_grid 10 10 (Fin 40))"
  by (simp add: raw_counts_def scenario_raster_def filled_def is_masked_def pixel_area_km2_def
      times_area_def uniform_grid_def)

lemma scenario_total: "np_sum (uniform_grid 10 10 (Fin 40)) = Fin 4000"
  by (simp add: uniform_grid_def np_sum_uniform)

lemma nan_raster_raw_counts: "raw_counts nan_raster ''per_km2'' = Inr [[NaN], [Fin 0]]"
  by (simp add: raw_counts_def nan_raster_def filled_def is_masked_def py_eq_def
      pixel_area_km2_def times_area_def lats_def upt_rec)

lemma no_land_raw_counts: "raw_counts no_land_raster ''per_km2'' = Inr [[Fin 0], [Fin 0]]"
  by (simp add: raw_counts_def no_land_raster_def filled_def is_masked_def py_eq_def
      pixel_area_km2_def times_area_def)

text \<open>
  Claim C4, as stated, fails: a raw total that is NaN raises nothing.  On \<open>nan_raster\<close>
  the only unmasked cell is NaN, the raw total is NaN, the scale factor is
  \<open>target / NaN = NaN\<close>, and an array of NaN is saved.
\<close>

theorem nan_total_is_saved:
  "convert_density_to_count nan_raster ''per_km2'' (Fin 7000000000)
   = Inr \<lparr>saved_array = [[NaN], [NaN]],
          meta = \<lparr>total_raw = NaN, total_adjusted = NaN, scale_factor = NaN,
                  target_population = Fin 7000000000\<rparr>\<rparr>"
  by (simp add: convert_density_to_count_def nan_raster_raw_counts bind_err_def Let_def
      np_sum_def)

text \<open>
  Claim C4, amended.  A raw total of zero is fatal: the division raises
  \<^verbatim>\<open>ZeroDivisionError\<close> before anything is saved.  A raw total that is NaN or infinite
  raises nothing: the conversion returns and saves the scaled array, and when the raw total
  is NaN every saved cell and the scale factor are NaN.
\<close>

theorem degenerate_raw_total:
  assumes "raw_counts src density_units = Inr pop_counts"
  shows "(np_sum pop_counts = Fin 0 \<longrightarrow>
            convert_density_to_count src density_units target_pop = Inl ZeroDivisionError)
       \<and> (\<not> is_fin (np_sum pop_counts) \<longrightarrow>
            (\<exists>out. convert_density_to_count src density_units target_pop = Inr out
                   \<and> total_raw (meta out) = np_sum pop_counts))
       \<and> (np_sum pop_counts = NaN \<longrightarrow>
            (\<exists>out. convert_density_to_count src density_units target_pop = Inr out
                   \<and> saved_array out = map (map (\<lambda>v. NaN)) pop_counts
                   \<and> scale_factor (meta out) = NaN))"
proof (intro conjI impI)
  assume "np_sum pop_counts = Fin 0"
  then show "convert_density_to_count src density_units target_pop = Inl ZeroDivisionError"
    using assms by (simp add: convert_density_to_count_def bind_err_def)
next
  assume "\<not> is_fin (np_sum pop_counts)"
  then obtain s where "py_div target_pop (np_sum pop_counts) = Inr s"
    using py_div_nonfinite by blast
  then show "\<exists>out. convert_density_to_count src density_units target_pop = Inr out
                   \<and> total_raw (meta out) = np_sum pop_counts"
    using assms by (simp add: convert_density_to_count_def bind_err_def Let_def)
next
  assume "np_sum pop_counts = NaN"
  then show "\<exists>out. convert_density_to_count src density_units target_pop = Inr out
                   \<and> saved_array out = map (map (\<lambda>v. NaN)) pop_counts
                   \<and> scale_factor (meta out) = NaN"
    using assms by (simp add: convert_density_to_count_def bind_err_def Let_def fmul_NaN_right)
qed

theorem degenerate_raw_total_witness:
  "raw_counts no_land_raster ''per_km2'' = Inr [[Fin 0], [Fin 0]]
   \<and> np_sum [[Fin 0], [Fin 0]] = Fin 0
   \<and> convert_density_to_count no_land_raster ''per_km2'' (Fin 7000000000)
       = Inl ZeroDivisionError
   \<and> raw_counts nan_raster ''per_km2'' = Inr [[NaN], [Fin 0]]
   \<and> \<not> is_fin (np_sum [[NaN], [Fin 0]])
   \<and> np_sum [[NaN], [Fin 0]] = NaN
   \<and> (\<exists>out. convert_density_to_count nan_raster ''per_km2'' (Fin 7000000000) = Inr out
         \<and> total_raw (meta out) = np_sum [[NaN], [Fin 0]]
         \<and> saved_array out = map (map (\<lambda>v. NaN)) [[NaN], [Fin 0]]
         \<and> scale_factor (meta out) = NaN)"
proof -
  have z: "np_sum [[Fin 0], [Fin 0]] = Fin 0" and n: "np_sum [[NaN], [Fin 0]] = NaN"
    by (simp_all add: np_sum_def)
  show ?thesis
    using degenerate_raw_total [OF no_land_raw_counts, of "Fin 7000000000"]
      degenerate_raw_total [OF nan_raster_raw_counts, of "Fin 7000000000"]
      no_land_raw_counts nan_raster_raw_counts z n
    by auto
qed

text \<open>
  Claim C8.  Outside the geographic branch the pixel area is the constant
  \<open>|xres * yres| / 10\<^sup>6\<close> (square metres to square kilometres), and on the scenario
  (density 10 on 10 by 10 pixels of 2 km by 2 km, target 1600) the raw total is 4000, the
  scale factor 0.4, every saved cell 16 and the adjusted total 1600.
\<close>

theorem projected_area_and_scenario:
  "pixel_area_km2 (src\<lparr>is_geographic := False\<rparr>)
     = Scalar (\<bar>fst (res src) * snd (res src)\<bar> / 10 ^ 6)
   \<and> pixel_area_km2 scenario_raster = Scalar 4
   \<and> convert_density_to_count scenario_raster ''per_km2'' (Fin 1600)
     = Inr \<lparr>saved_array = uniform_grid 10 10 (Fin 16),
            meta = \<lparr>total_raw = Fin 4000, total_adjusted = Fin 1600,
                    scale_factor = Fin (4 / 10), target_population = Fin 1600\<rparr>\<rparr>
   \<and> np_sum (uniform_grid 10 10 (Fin 16)) = Fin 1600"
proof -
  have a: "pixel_area_km2 (src\<lparr>is_geographic := False\<rparr>)
           = Scalar (\<bar>fst (res src) * snd (res src)\<bar> / 10 ^ 6)"
    by (simp add: pixel_area_km2_def abs_mult)
  have b: "pixel_area_km2 scenario_raster = Scalar 4"
    by (simp add: pixel_area_km2_def scenario_raster_def)
  have s: "map (map (\<lambda>v. fmul v (Fin (2 / 5)))) (uniform_grid 10 10 (Fin 40))
           = uniform_grid 10 10 (Fin 16)"
    by (simp add: uniform_grid_def)
  have t: "np_sum (uniform_grid 10 10 (Fin 16)) = Fin 1600"
    by (simp add: uniform_grid_def np_sum_uniform)
  have "convert_density_to_count scenario_raster ''per_km2'' (Fin 1600)
     = Inr \<lparr>saved_array = uniform_grid 10 10 (Fin 16),
            meta = \<lparr>total_raw = Fin 4000, total_adjusted = Fin 1600,
                    scale_factor = Fin (4 / 10), target_population = Fin 1600\<rparr>\<rparr>"
    by (simp add: convert_density_to_count_def scenario_raw_counts scenario_total bind_err_def
        Let_def s t)
  with a b t show ?thesis by simp
qed

section \<open>The pixel-area model\<close>

lemma km_per_deg_lat_cos: "km_per_deg_lat lat = meridian (1 - (cos (radians lat))\<^sup>2)"
proof -
  have "(sin (radians lat)) ^ 4 = ((sin (radians lat))\<^sup>2)\<^sup>2" by simp
  then show ?thesis
    by (simp only: km_per_deg_lat_def meridian_def sin_squared_eq)
qed

lemma meridian_antimono:
  assumes "0 \<le> s" "s \<le> t" "t \<le> 1"
  shows "meridian t \<le> meridian s"
proof -
  have "meridian s - meridian t = (t - s) * (0.559 - 0.0012 * (s + t))"
    by (simp add: meridian_def power2_eq_square field_simps)
  moreover have "0 \<le> (t - s) * (0.559 - 0.0012 * (s + t))"
    using assms by (intro mult_nonneg_nonneg) auto
  ultimately show ?thesis by linarith
qed

lemma meridian_pos:
  assumes "0 \<le> s" "s \<le> 1"
  shows "0 < meridian s"
proof -
  have "0 \<le> s\<^sup>2" by simp
  then have "s * 2795 < 6 * s\<^sup>2 + 555660" using assms by linarith
  then show ?thesis by (simp add: meridian_def field_simps)
qed

lemma cos_radians_abs: "cos (radians \<bar>lat\<bar>) = cos (radians lat)"
  by (cases "0 \<le> lat") (simp_all add: radians_def abs_if) 

lemma radians_bounds:
  assumes "\<bar>a\<bar> \<le> \<bar>b\<bar>" "\<bar>b\<bar> \<le> 90"
  shows "0 \<le> radians \<bar>a\<bar>" "radians \<bar>a\<bar> \<le> radians \<bar>b\<bar>" "radians \<bar>b\<bar> \<le> pi / 2"
  using assms pi_gt_zero by (simp_all add: radians_def divide_right_mono mult_right_mono)

lemma radians_strict: "\<bar>a\<bar> < \<bar>b\<bar> \<Longrightarrow> radians \<bar>a\<bar> < radians \<bar>b\<bar>"
  using pi_gt_zero by (simp add: radians_def)

lemma row_area_factor_mono:
  assumes "\<bar>a\<bar> \<le> \<bar>b\<bar>" "\<bar>b\<bar> \<le> 90"
  shows "km_per_deg_lon b * km_per_deg_lat b \<le> km_per_deg_lon a * km_per_deg_lat a"
    and "\<bar>a\<bar> < \<bar>b\<bar> \<Longrightarrow> km_per_deg_lon b * km_per_deg_lat b < km_per_deg_lon a * km_per_deg_lat a"
proof -
  define x where "x = radians \<bar>a\<bar>"
  define y where "y = radians \<bar>b\<bar>"
  have xy: "0 \<le> x" "x \<le> y" "y \<le> pi / 2"
    using radians_bounds[OF assms] by (simp_all add: x_def y_def)
  have cy0: "0 \<le> cos y" using xy by (intro cos_ge_zero) auto
  have cyx: "cos y \<le> cos x" using xy pi_gt_zero by (intro cos_monotone_0_pi_le) auto
  have cx1: "cos x \<le> 1" by simp
  have sq: "(cos y)\<^sup>2 \<le> (cos x)\<^sup>2" using cy0 cyx by (intro power_mono) auto
  have sq1: "(cos x)\<^sup>2 \<le> 1" using cy0 cyx cx1 by (simp add: power_le_one)
  have sq0: "0 \<le> (cos y)\<^sup>2" by simp
  have m: "meridian (1 - (cos y)\<^sup>2) \<le> meridian (1 - (cos x)\<^sup>2)"
    using sq sq1 sq0 by (intro meridian_antimono) auto
  have mp: "0 < meridian (1 - (cos y)\<^sup>2)" "0 < meridian (1 - (cos x)\<^sup>2)"
    using sq sq1 sq0 by (auto intro!: meridian_pos)
  have ea: "km_per_deg_lon a * km_per_deg_lat a = 111.320 * (cos x * meridian (1 - (cos x)\<^sup>2))"
    by (simp add: km_per_deg_lon_def km_per_deg_lat_cos x_def cos_radians_abs)
  have eb: "km_per_deg_lon b * km_per_deg_lat b = 111.320 * (cos y * meridian (1 - (cos y)\<^sup>2))"
    by (simp add: km_per_deg_lon_def km_per_deg_lat_cos y_def cos_radians_abs)
  have "cos y * meridian (1 - (cos y)\<^sup>2) \<le> cos x * meridian (1 - (cos x)\<^sup>2)"
    using cyx m cy0 mp by (intro mult_mono) auto
  then show "km_per_deg_lon b * km_per_deg_lat b \<le> km_per_deg_lon a * km_per_deg_lat a"
    unfolding ea eb by simp
  assume "\<bar>a\<bar> < \<bar>b\<bar>"
  then have "x < y" using radians_strict by (simp add: x_def y_def)
  then have "cos y < cos x" using xy pi_gt_zero by (intro cos_monotone_0_pi) auto
  then have "cos y * meridian (1 - (cos y)\<^sup>2) < cos x * meridian (1 - (cos x)\<^sup>2)"
    using m cy0 mp by (intro mult_less_le_imp_less) auto
  then show "km_per_deg_lon b * km_per_deg_lat b < km_per_deg_lon a * km_per_deg_lat a"
    unfolding ea eb by simp
qed


lemma geographic_areas:
  assumes "is_geographic src"
  shows "pixel_area_km2 src
         = PerRow (map (\<lambda>r. pixel_width_km src (row_lat (transform src) r)
                            * pixel_height_km src (row_lat (transform src) r))
                     [0 ..< length (masked_data src)])"
  using assms by (simp add: pixel_area_km2_def lats_def comp_def)

lemma row_area_split:
  "pixel_width_km src lat * pixel_height_km src lat
   = (\<bar>fst (res src)\<bar> * \<bar>snd (res src)\<bar>) * (km_per_deg_lon lat * km_per_deg_lat lat)"
  by (simp add: pixel_width_km_def pixel_height_km_def)

lemma geo60_lat0: "row_lat (global_transform 60) 0 = 60"
  and geo60_lat1: "row_lat (global_transform 60) (Suc 0) = 0"
  by (simp_all add: row_lat_def affine_mul_def global_transform_def)

lemma cos_radians_60: "cos (radians 60) = 1 / 2"
  by (simp add: radians_def cos_60)

text \<open>
  Claim C6.  In the geographic branch, for two rows whose centres are at latitudes of
  absolute value at most 90, the row farther from the equator has the smaller or equal
  area, and a strictly smaller one when it is strictly farther and the pixel size is not
  zero.
\<close>

theorem pixel_area_decreases_toward_poles:
  assumes "is_geographic src"
    and "i < length (masked_data src)" and "j < length (masked_data src)"
    and "\<bar>row_lat (transform src) i\<bar> \<le> \<bar>row_lat (transform src) j\<bar>"
    and "\<bar>row_lat (transform src) j\<bar> \<le> 90"
  shows "\<exists>areas. pixel_area_km2 src = PerRow areas
           \<and> length areas = length (masked_data src)
           \<and> areas ! j \<le> areas ! i
           \<and> (\<bar>row_lat (transform src) i\<bar> < \<bar>row_lat (transform src) j\<bar>
                \<and> fst (res src) \<noteq> 0 \<and> snd (res src) \<noteq> 0
              \<longrightarrow> areas ! j < areas ! i)"
proof -
  let ?a = "row_lat (transform src) i" and ?b = "row_lat (transform src) j"
  let ?k = "\<bar>fst (res src)\<bar> * \<bar>snd (res src)\<bar>"
  let ?F = "\<lambda>lat. km_per_deg_lon lat * km_per_deg_lat lat"
  have le: "?F ?b \<le> ?F ?a" using row_area_factor_mono(1)[OF assms(4,5)] .
  have k0: "0 \<le> ?k" by simp
  have 1: "?k * ?F ?b \<le> ?k * ?F ?a" using le k0 by (rule mult_left_mono)
  have 2: "?k * ?F ?b < ?k * ?F ?a"
    if "\<bar>?a\<bar> < \<bar>?b\<bar>" "fst (res src) \<noteq> 0" "snd (res src) \<noteq> 0"
  proof -
    have "0 < ?k" using that by simp
    moreover have "?F ?b < ?F ?a" using row_area_factor_mono(2)[OF assms(4,5)] that by simp
    ultimately show ?thesis by (intro mult_strict_left_mono)
  qed
  show ?thesis
    using assms(2,3) 1 2 by (simp add: geographic_areas[OF assms(1)] row_area_split)
qed

theorem pixel_area_decreases_toward_poles_witness:
  "is_geographic geo_raster60
   \<and> 1 < length (masked_data geo_raster60) \<and> 0 < length (masked_data geo_raster60)
   \<and> \<bar>row_lat (transform geo_raster60) 1\<bar> < \<bar>row_lat (transform geo_raster60) 0\<bar>
   \<and> \<bar>row_lat (transform geo_raster60) 0\<bar> \<le> 90
   \<and> fst (res geo_raster60) \<noteq> 0 \<and> snd (res geo_raster60) \<noteq> 0
   \<and> (\<exists>areas. pixel_area_km2 geo_raster60 = PerRow areas \<and> areas ! 0 < areas ! 1)"
proof -
  have h: "is_geographic geo_raster60" "1 < length (masked_data geo_raster60)"
    "0 < length (masked_data geo_raster60)"
    "\<bar>row_lat (transform geo_raster60) 1\<bar> \<le> \<bar>row_lat (transform geo_raster60) 0\<bar>"
    "\<bar>row_lat (transform geo_raster60) 0\<bar> \<le> 90"
    by (simp_all add: geo_raster60_def geo60_lat0 geo60_lat1)
  have s: "\<bar>row_lat (transform geo_raster60) 1\<bar> < \<bar>row_lat (transform geo_raster60) 0\<bar>"
    "fst (res geo_raster60) \<noteq> 0" "snd (res geo_raster60) \<noteq> 0"
    by (simp_all add: geo_raster60_def geo60_lat0 geo60_lat1)
  show ?thesis using pixel_area_decreases_toward_poles [OF h] h s by blast
qed



section \<open>The coverage sweep\<close>









lemma sum_counts_Inr:
  "sum_counts data acc ps = Inr tot \<Longrightarrow>
   (\<forall>px \<in> set ps. count_at data px = Inr (count_of data px))
   \<and> tot = py_sum acc (map (count_of data) ps)"
proof (induction ps arbitrary: acc)
  case Nil
  then show ?case by simp
next
  case (Cons px ps)
  then obtain v where v: "count_at data px = Inr v"
    by (cases "count_at data px") simp_all
  with Cons.prems have "sum_counts data (fadd acc v) ps = Inr tot" by simp
  from Cons.IH[OF this] v show ?case by (simp add: count_of_def)
qed





subsection \<open>The sweep on the grid of 60 degree pixels\<close>

lemma arccos_half: "arccos (1 / 2) = pi / 3"
proof -
  have "arccos (cos (pi / 3)) = pi / 3" using pi_gt_zero by (intro arccos_cos) auto
  then show ?thesis by (simp add: cos_60)
qed

lemma beyond_spotbeam:
  assumes "- 1 \<le> x" "x \<le> 1 / 2"
  shows "\<not> 6371.009 * arccos x \<le> 1300"
proof -
  have "arccos (1 / 2) \<le> arccos x" using assms by (subst arccos_le_mono) auto
  then have "2 / 3 \<le> arccos x" using pi_ge_two by (simp add: arccos_half)
  then show ?thesis by simp
qed

lemma great_circle_from_equator:
  "\<bar>lat2\<bar> \<le> 90 \<Longrightarrow>
   great_circle_km (0, lon1) (lat2, lon2)
   = Inr (6371.009 * arccos (cos (radians lat2) * cos (radians lon2 - radians lon1)))"
  by (simp add: great_circle_km_def radians_def)

lemma cos_radians_m60: "cos (radians (- 60)) = 1 / 2"
  by (simp add: radians_def cos_60)

lemma cos_radians_diffs:
  "cos (radians (- 30) - radians 30) = 1 / 2"
  "cos (radians 30 - radians 30) = 1"
  "cos (radians 90 - radians 30) = 1 / 2"
proof -
  have a: "radians (- 30) - radians 30 = - (pi / 3)" by (simp add: radians_def)
  show "cos (radians (- 30) - radians 30) = 1 / 2" unfolding a by (simp add: cos_60)
  show "cos (radians 30 - radians 30) = 1" by simp
  have b: "radians 90 - radians 30 = pi / 3" by (simp add: radians_def)
  show "cos (radians 90 - radians 30) = 1 / 2" unfolding b by (simp add: cos_60)
qed

lemma world60_box:
  assumes "RASTER_TRANSFORM G = global_transform 60" "RASTER_SHAPE G = (3, 6)"
  shows "sample_box G 1300 (0, 30) = Inr (0, 3, 2, 5)"
proof -
  define inv where
    "inv = \<lparr>coef_a = 1 / 60, coef_b = 0, coef_c = 3, coef_d = 0, coef_e = - 1 / 60, coef_f = 3 / 2\<rparr>"
  have i: "affine_invert (global_transform 60) = Inr inv"
    by (simp add: inv_def affine_invert_def global_transform_def Let_def)
  have c: "affine_mul inv (30, 0) = (7 / 2, 3 / 2)"
    by (simp add: inv_def affine_mul_def)
  have t: "trunc_real (7 / 2) = 3" "trunc_real (3 / 2) = 1"
    by (simp_all add: trunc_real_def)
  have g: "coef_a (global_transform 60) = 60" "coef_e (global_transform 60) = - 60"
    by (simp_all add: global_transform_def)
  show ?thesis
    by (simp add: sample_box_def assms i c t g pixel_radius_def round_half_even_def radians64_0
        bind_err_def Let_def)
qed

lemma box_0325:
  "box_pixels (0, 3, 2, 5)
   = [(0, 2), (0, 3), (0, 4), (1, 2), (1, 3), (1, 4), (2, 2), (2, 3), (2, 4)]"
  by (simp add: box_pixels_def py_range_def upto.simps)

lemma world60_centers:
  "pixel_center (global_transform 60) (0, 2) = (60, - 30)"
  "pixel_center (global_transform 60) (0, 3) = (60, 30)"
  "pixel_center (global_transform 60) (0, 4) = (60, 90)"
  "pixel_center (global_transform 60) (1, 2) = (0, - 30)"
  "pixel_center (global_transform 60) (1, 3) = (0, 30)"
  "pixel_center (global_transform 60) (1, 4) = (0, 90)"
  "pixel_center (global_transform 60) (2, 2) = (- 60, - 30)"
  "pixel_center (global_transform 60) (2, 3) = (- 60, 30)"
  "pixel_center (global_transform 60) (2, 4) = (- 60, 90)"
  by (simp_all add: pixel_center_def affine_mul_def global_transform_def)

lemma scan_far:
  "m ctr (pixel_center T px) = Inr d \<Longrightarrow> \<not> d \<le> rad \<Longrightarrow>
   scan_box m T rad ctr (px # rest) cov = scan_box m T rad ctr rest cov"
  by simp

lemma scan_near:
  "m ctr (pixel_center T px) = Inr d \<Longrightarrow> d \<le> rad \<Longrightarrow>
   scan_box m T rad ctr (px # rest) cov = scan_box m T rad ctr rest (List.insert px cov)"
  by simp

lemma world60_far:
  assumes "lat2 \<in> {60, 0, - 60}" "lon2 \<in> {- 30, 30, 90}" "(lat2, lon2) \<noteq> (0, 30)"
  shows "\<exists>d. great_circle_km (0, 30) (lat2, lon2) = Inr d \<and> \<not> d \<le> 1300"
proof -
  have v: "- 1 \<le> cos (radians lat2) * cos (radians lon2 - radians 30)
        \<and> cos (radians lat2) * cos (radians lon2 - radians 30) \<le> 1 / 2"
    using assms by (auto simp: cos_radians_60 cos_radians_m60 cos_radians_diffs) (simp_all add: radians_def)
  have "\<bar>lat2\<bar> \<le> 90" using assms by auto
  then have 1: "great_circle_km (0, 30) (lat2, lon2)
      = Inr (6371.009 * arccos (cos (radians lat2) * cos (radians lon2 - radians 30)))"
    by (rule great_circle_from_equator)
  have 2: "\<not> 6371.009 * arccos (cos (radians lat2) * cos (radians lon2 - radians 30)) \<le> 1300"
    using v by (intro beyond_spotbeam) auto
  from 1 2 show ?thesis by blast
qed

lemma world60_near: "great_circle_km (0, 30) (0, 30) = Inr 0"
  by (simp add: great_circle_km_def radians_def)

lemma world60_scan:
  "scan_box great_circle_km (global_transform 60) 1300 (0, 30)
     [(0, 2), (0, 3), (0, 4), (1, 2), (1, 3), (1, 4), (2, 2), (2, 3), (2, 4)] cov
   = Inr (List.insert (1, 3) cov)"
proof -
  have far: "scan_box great_circle_km (global_transform 60) 1300 (0, 30) (px # rest) cov
             = scan_box great_circle_km (global_transform 60) 1300 (0, 30) rest cov"
    if "pixel_center (global_transform 60) px = (lat2, lon2)"
      "lat2 \<in> {60, 0, - 60}" "lon2 \<in> {- 30, 30, 90}" "(lat2, lon2) \<noteq> (0, 30)"
    for px rest cov lat2 lon2
    using world60_far[OF that(2,3,4)] that(1) by (auto intro: scan_far)
  have near: "scan_box great_circle_km (global_transform 60) 1300 (0, 30) ((1, 3) # rest) cov
             = scan_box great_circle_km (global_transform 60) 1300 (0, 30) rest (List.insert (1, 3) cov)"
    for rest cov
    by (rule scan_near[where d = 0]) (simp_all add: world60_centers world60_near)
  show ?thesis
    apply (subst far[OF world60_centers(1)], simp, simp, simp)
    apply (subst far[OF world60_centers(2)], simp, simp, simp)
    apply (subst far[OF world60_centers(3)], simp, simp, simp)
    apply (subst far[OF world60_centers(4)], simp, simp, simp)
    apply (subst near)
    apply (subst far[OF world60_centers(6)], simp, simp, simp)
    apply (subst far[OF world60_centers(7)], simp, simp, simp)
    apply (subst far[OF world60_centers(8)], simp, simp, simp)
    apply (subst far[OF world60_centers(9)], simp, simp, simp)
    apply simp
    done
qed


lemma world60_shape:
  "RASTER_TRANSFORM world60 = global_transform 60" "RASTER_SHAPE world60 = (3, 6)"
  "RASTER_TRANSFORM world60_nan = global_transform 60" "RASTER_SHAPE world60_nan = (3, 6)"
  by (simp_all add: world60_def world60_nan_def)


lemma world60_nan_count: "count_at (POPULATION_COUNT_DATA world60_nan) (1, 3) = Inr NaN"
  by (simp add: count_at_def norm_index_def world60_nan_def world60_def bind_err_def Let_def)




lemma world60_single_sweep:
  assumes "RASTER_TRANSFORM G = global_transform 60" "RASTER_SHAPE G = (3, 6)"
  shows "sweep great_circle_km G 1300 [(0, 30)] [] = Inr [(1, 3)]"
  by (simp add: assms world60_box[OF assms] box_0325 world60_scan del: scan_box.simps)









lemma py_slice_map: "py_slice s e (map f xs) = map f (py_slice s e xs)"
  by (simp add: py_slice_def Let_def take_map drop_map)

lemma nan_to_zero_idem: "nan_to_zero (nan_to_zero v) = nan_to_zero v"
  by (simp add: nan_to_zero_def)

lemma np_nansum_slice_clean:
  "np_nansum (map (py_slice cs ce) (py_slice rs re (map (map nan_to_zero) data)))
   = np_nansum (map (py_slice cs ce) (py_slice rs re data))"
  by (simp add: np_nansum_def py_slice_map comp_def nan_to_zero_idem)

lemma estimate_ignores_nan:
  "estimate_body (G\<lparr>POPULATION_COUNT_DATA := map (map nan_to_zero) (POPULATION_COUNT_DATA G)\<rparr>)
     lat_arg lon_arg radius_arg
   = estimate_body G lat_arg lon_arg radius_arg"
  by (simp add: estimate_body_def np_nansum_slice_clean Let_def)

lemma sum_counts_NaN:
  assumes "sum_counts data acc covered = Inr tot" "px \<in> set covered" "count_at data px = Inr NaN"
  shows "tot = NaN"
proof -
  have "count_of data px = NaN" using assms(3) by (simp add: count_of_def)
  then have "NaN \<in> set (map (count_of data) covered)" using assms(2) by force
  then show ?thesis using sum_counts_Inr[OF assms(1)] py_sum_has_NaN by simp
qed

lemma world60_nan_estimate:
  "get_population_estimate world60_nan (Given (Fin 0)) (Given (Fin 30)) (Given (Fin 1300)) = 8"
proof -
  define inv where
    "inv = \<lparr>coef_a = 1 / 60, coef_b = 0, coef_c = 3, coef_d = 0, coef_e = - 1 / 60, coef_f = 3 / 2\<rparr>"
  have i: "affine_invert (global_transform 60) = Inr inv"
    by (simp add: inv_def affine_invert_def global_transform_def Let_def)
  have c: "affine_mulf inv (Fin 30, Fin 0) = (Fin (7 / 2), Fin (3 / 2))"
    by (simp add: inv_def affine_mulf_def)
  have t: "trunc_real (7 / 2) = 3" "trunc_real (3 / 2) = 1"
    by (simp_all add: trunc_real_def)
  have r: "estimate_col_radius (global_transform 60) (Fin 0) (Fin 1300) = Inr 1"
    "estimate_row_radius (global_transform 60) (Fin 1300) = Inr 1"
    by (simp_all add: estimate_col_radius_def estimate_row_radius_def pixel_radius_def
        round_half_even_def radians64_0 global_transform_def bind_err_def Let_def)
  have s: "np_nansum (map (py_slice 2 5) (py_slice 0 3
             [replicate 6 (Fin 1), [Fin 1, Fin 1, Fin 1, NaN, Fin 1, Fin 1], replicate 6 (Fin 1)]))
           = Fin 8"
    by (simp add: py_slice_def slice_index_def np_nansum_def np_sum_def nan_to_zero_def Let_def
        numeral_eq_Suc)
  show ?thesis
    by (simp add: get_population_estimate_def estimate_body_def world60_nan_def world60_def
        i c t r s bind_err_def arg_default_def Let_def trunc_real_def)
qed






text \<open>
  Claim C10.  The point estimate is unchanged when every NaN cell of the count grid is
  replaced by 0: a NaN cell contributes 0.  In the sweep, when a covered pixel holds NaN
  the total is NaN; \<^verbatim>\<open>int\<close> of it raises and the handler answers with an error.
\<close>

theorem nan_cells_in_the_two_queries:
  "get_population_estimate
     (G\<lparr>POPULATION_COUNT_DATA := map (map nan_to_zero) (POPULATION_COUNT_DATA G)\<rparr>)
     lat_arg lon_arg radius_arg
   = get_population_estimate G lat_arg lon_arg radius_arg
   \<and> (sweep m G rad track [] = Inr covered \<and> px \<in> set covered
        \<and> count_at (POPULATION_COUNT_DATA G) px = Inr NaN
        \<and> sum_counts (POPULATION_COUNT_DATA G) (Fin 0) covered = Inr tot
      \<longrightarrow> tot = NaN \<and> coverage_score m G rad track = Inl ValueError)"
proof (intro conjI impI)
  show "get_population_estimate
     (G\<lparr>POPULATION_COUNT_DATA := map (map nan_to_zero) (POPULATION_COUNT_DATA G)\<rparr>)
     lat_arg lon_arg radius_arg
   = get_population_estimate G lat_arg lon_arg radius_arg"
    by (simp only: get_population_estimate_def estimate_ignores_nan)
next
  assume a: "sweep m G rad track [] = Inr covered \<and> px \<in> set covered
        \<and> count_at (POPULATION_COUNT_DATA G) px = Inr NaN
        \<and> sum_counts (POPULATION_COUNT_DATA G) (Fin 0) covered = Inr tot"
  then have t: "tot = NaN" using sum_counts_NaN by blast
  then show "tot = NaN" .
  show "coverage_score m G rad track = Inl ValueError"
    using a t by (simp add: coverage_score_def bind_err_def)
qed

theorem nan_cells_in_the_two_queries_witness:
  "sweep great_circle_km world60_nan 1300 [(0, 30)] [] = Inr [(1, 3)]
   \<and> (1, 3) \<in> set [(1 :: int, 3 :: int)]
   \<and> count_at (POPULATION_COUNT_DATA world60_nan) (1, 3) = Inr NaN
   \<and> sum_counts (POPULATION_COUNT_DATA world60_nan) (Fin 0) [(1, 3)] = Inr NaN
   \<and> coverage_score great_circle_km world60_nan 1300 [(0, 30)] = Inl ValueError
   \<and> get_population_estimate world60_nan (Given (Fin 0)) (Given (Fin 30)) (Given (Fin 1300)) = 8
   \<and> get_population_estimate
        (world60_nan\<lparr>POPULATION_COUNT_DATA :=
           map (map nan_to_zero) (POPULATION_COUNT_DATA world60_nan)\<rparr>)
        (Given (Fin 0)) (Given (Fin 30)) (Given (Fin 1300)) = 8"
proof -
  have 1: "sweep great_circle_km world60_nan 1300 [(0, 30)] [] = Inr [(1, 3)]"
    by (rule world60_single_sweep[OF world60_shape(3,4)])
  have 2: "sum_counts (POPULATION_COUNT_DATA world60_nan) (Fin 0) [(1, 3)] = Inr NaN"
    by (simp add: world60_nan_count)
  show ?thesis
    using nan_cells_in_the_two_queries [of world60_nan "Given (Fin 0)" "Given (Fin 30)" "Given (Fin 1300)"
        great_circle_km 1300 "[(0, 30)]" "[(1, 3)]" "(1, 3)" NaN]
      1 2 world60_nan_count world60_nan_estimate
    by simp
qed

section \<open>Malformed queries\<close>

lemma fmul_fin_iff: "is_fin (fmul x y) \<longleftrightarrow> is_fin x \<and> is_fin y"
  by (cases x; cases y) (simp_all add: inf_of_sign_def)

lemma py_int_Inr_fin: "py_int v = Inr n \<Longrightarrow> is_fin v"
  by (cases v) simp_all

lemma affine_mulf_fin:
  "affine_mulf T (x, y) = (u, v) \<Longrightarrow> is_fin u \<Longrightarrow> is_fin x \<and> is_fin y"
  by (auto simp: affine_mulf_def fadd_fin_iff fmul_fin_iff)

lemma estimate_body_fin:
  assumes "estimate_body G lat_arg lon_arg radius_arg = Inr n"
  shows "\<exists>lat lon. lat_arg = Given (Fin lat) \<and> lon_arg = Given (Fin lon)"
proof -
  from assms obtain lat where lat: "py_float lat_arg = Inr lat"
    by (cases "py_float lat_arg") (simp_all add: estimate_body_def bind_err_def)
  with assms obtain lon where lon: "py_float lon_arg = Inr lon"
    by (cases "py_float lon_arg") (simp_all add: estimate_body_def bind_err_def)
  from assms lat lon obtain radius_km
    where rad: "py_float (arg_default radius_arg (Fin 1)) = Inr radius_km"
    by (cases "py_float (arg_default radius_arg (Fin 1))")
      (simp_all add: estimate_body_def bind_err_def)
  from assms lat lon rad obtain inv where inv: "affine_invert (RASTER_TRANSFORM G) = Inr inv"
    by (cases "affine_invert (RASTER_TRANSFORM G)")
      (simp_all add: estimate_body_def bind_err_def)
  obtain fcol frow where c: "affine_mulf inv (lon, lat) = (fcol, frow)"
    by (cases "affine_mulf inv (lon, lat)")
  from assms lat lon rad inv c obtain center_col where "py_int fcol = Inr center_col"
    by (cases "py_int fcol") (simp_all add: estimate_body_def bind_err_def)
  then have "is_fin fcol" by (rule py_int_Inr_fin)
  with c have "is_fin lon \<and> is_fin lat" by (rule affine_mulf_fin)
  then obtain a b where "lat = Fin a" "lon = Fin b" by (cases lat; cases lon) simp_all
  with lat lon show ?thesis by (cases lat_arg; cases lon_arg) simp_all
qed

text \<open>
  The fail-soft half of the point query's contract: unless both the latitude and the
  longitude are present and parse to finite numbers, the answer is 0.  A missing or
  unparsable parameter raises in \<^verbatim>\<open>float\<close>, a NaN or an infinity raises in
  \<^verbatim>\<open>int\<close>, and the handler turns every exception into 0.
\<close>

theorem estimate_malformed_is_zero:
  assumes "\<not> (\<exists>lat lon. lat_arg = Given (Fin lat) \<and> lon_arg = Given (Fin lon))"
  shows "get_population_estimate G lat_arg lon_arg radius_arg = 0"
proof (cases "estimate_body G lat_arg lon_arg radius_arg")
  case (Inl e)
  then show ?thesis by (simp add: get_population_estimate_def)
next
  case (Inr n)
  from estimate_body_fin[OF this] assms show ?thesis by blast
qed

theorem estimate_malformed_is_zero_witness:
  "\<not> (\<exists>lat lon. Given NaN = Given (Fin lat) \<and> Absent = Given (Fin lon))
   \<and> get_population_estimate world10 (Given NaN) Absent Unparsable = 0"
  using estimate_malformed_is_zero [of "Given NaN" Absent world10 Unparsable] by simp

end
